theory Spec2Isabelle
  imports Main "HOL-Library.Word" "HOL-Library.Multiset" "HOL-Library.Signed_Division"
begin

section \<open>Machine types of bedpeSummary.cpp\<close>

text \<open>
  Modelled from the spec: the type \<open>CHRPOS\<close> is declared in a header of the repository
  that is not among the sources at hand. The data model calls coordinates and distances
  signed, wide integers, and the code takes their absolute value with \<open>llabs\<close>
  (\<open>long long\<close>), so \<open>CHRPOS\<close> is a signed 64-bit integer. The counters are C++
  \<open>int\<close>: 32 bits. Arithmetic wraps around modulo the width; the signed value of a
  word is read with \<open>sint\<close>.
\<close>

type_synonym CHRPOS = "64 word"
type_synonym c_int = "32 word"

text \<open>The operator \<open>/\<close> of C++ on signed integers truncates towards zero.\<close>

definition chrpos_div :: "CHRPOS \<Rightarrow> CHRPOS \<Rightarrow> CHRPOS" where
  "chrpos_div a b = word_of_int (sint a sdiv sint b)"

definition llabs :: "CHRPOS \<Rightarrow> CHRPOS" where
  "llabs x = (if sint x < 0 then - x else x)"

text \<open>
  What the C++ standard leaves undefined, or answers with an exception, is a value of
  the model: an index outside a vector, a \<open>double\<close> without an integer value converted
  to an integer, a vector of negative size.
\<close>

datatype fault = IndexOutOfRange | NotRepresentable | LengthError

text \<open>
  \<open>operator[]\<close> of \<open>std::vector\<close>. The index is a \<open>size_t\<close>, an unsigned 64-bit
  number: it is an integer here, and the one place where \<open>size_t\<close> arithmetic
  wraps (\<open>n / 2 - 1\<close> for \<open>n / 2 = 0\<close>) is written out where it occurs.
\<close>

definition vec_at :: "'a list \<Rightarrow> int \<Rightarrow> fault + 'a" where
  "vec_at v i = (if 0 \<le> i \<and> i < int (length v) then Inr (v ! nat i) else Inl IndexOutOfRange)"

section \<open>Records of the reader\<close>

text \<open>
  Modelled from the spec: \<open>BEDPE\<close>, \<open>BedLineStatus\<close> and \<open>BedFilePE::GetNextBedPE\<close>
  belong to the record reader, which is not among the sources at hand. A record has two
  chromosome names, four coordinates and two strands; each call of the reader yields a
  valid record, a line that is no record (header, comment), or the end of the input
  (\<open>BED_INVALID\<close>). A file is the list of the outcomes of the successive calls; once
  the list is used up the reader answers \<open>BED_INVALID\<close>.
\<close>

record BEDPE =
  chrom1 :: string
  start1 :: CHRPOS
  end1 :: CHRPOS
  chrom2 :: string
  start2 :: CHRPOS
  end2 :: CHRPOS
  strand1 :: string
  strand2 :: string

datatype BedLineStatus = BED_INVALID | BED_HEADER | BED_VALID

type_synonym BedFilePE = "(BedLineStatus \<times> BEDPE) list"

section \<open>The median: \<open>calc_median_chrposv\<close>\<close>

text \<open>
  The vector is passed by reference and sorted in place, so the function returns the
  sorted vector beside its result. \<open>std::sort\<close> orders \<open>CHRPOS\<close> values as signed
  numbers. For \<open>n = 0\<close> the index \<open>n / 2 - 1\<close> wraps to the largest \<open>size_t\<close>.
\<close>

definition calc_median_chrposv :: "CHRPOS list \<Rightarrow> (fault + CHRPOS) \<times> CHRPOS list" where
  "calc_median_chrposv accum0 =
     (let accum = sort_key sint accum0;
          n = int (length accum)
      in (if n mod 2 \<noteq> 0 then vec_at accum (n div 2)
          else (case vec_at accum (if n div 2 = 0 then 2 ^ 64 - 1 else n div 2 - 1) of
                  Inl f \<Rightarrow> Inl f
                | Inr a \<Rightarrow>
                    (case vec_at accum (n div 2) of
                       Inl f \<Rightarrow> Inl f
                     | Inr b \<Rightarrow> Inr (chrpos_div (a + b) 2))),
          accum))"

section \<open>The histogram: the constructor of \<open>HistogramData\<close>\<close>

record HistogramData =
  n_bins :: c_int
  min_val :: CHRPOS
  max_val :: CHRPOS
  bin_width :: CHRPOS
  bin_data :: "c_int list"

text \<open>
  \<open>std::min_element\<close> and \<open>std::max_element\<close> keep the first smallest (largest)
  element; on an empty range they return the end iterator, which must not be
  dereferenced.
\<close>

fun min_element_from :: "CHRPOS \<Rightarrow> CHRPOS list \<Rightarrow> CHRPOS" where
  "min_element_from m [] = m"
| "min_element_from m (x # xs) = min_element_from (if sint x < sint m then x else m) xs"

fun max_element_from :: "CHRPOS \<Rightarrow> CHRPOS list \<Rightarrow> CHRPOS" where
  "max_element_from m [] = m"
| "max_element_from m (x # xs) = max_element_from (if sint m < sint x then x else m) xs"

fun min_element :: "CHRPOS list \<Rightarrow> fault + CHRPOS" where
  "min_element [] = Inl IndexOutOfRange"
| "min_element (x # xs) = Inr (min_element_from x xs)"

fun max_element :: "CHRPOS list \<Rightarrow> fault + CHRPOS" where
  "max_element [] = Inl IndexOutOfRange"
| "max_element (x # xs) = Inr (max_element_from x xs)"

text \<open>
  The index of the bin of one value, as the loop body computes it: the quotient is
  cut to an \<open>int\<close> by \<open>static_cast\<close>, and only an index equal to \<open>num_bins\<close> is moved
  into the last bin.
\<close>

definition bin_index :: "CHRPOS \<Rightarrow> CHRPOS \<Rightarrow> c_int \<Rightarrow> CHRPOS \<Rightarrow> c_int" where
  "bin_index mn bw num_bins v =
     (let bin_idx = (ucast (chrpos_div (v - mn) bw) :: c_int)
      in if bin_idx = num_bins then bin_idx - 1 else bin_idx)"

text \<open>
  \<open>bin_data[bin_idx]++\<close>: the \<open>int\<close> index is converted to \<open>size_t\<close>, so a negative
  index is as far out of range as a large one.
\<close>

definition bump_bin :: "c_int list \<Rightarrow> c_int \<Rightarrow> fault + c_int list" where
  "bump_bin bins bin_idx =
     (if 0 \<le> sint bin_idx \<and> nat (sint bin_idx) < length bins
      then Inr (bins[nat (sint bin_idx) := bins ! nat (sint bin_idx) + 1])
      else Inl IndexOutOfRange)"

fun fill_bins :: "CHRPOS \<Rightarrow> CHRPOS \<Rightarrow> c_int \<Rightarrow> CHRPOS list \<Rightarrow> c_int list \<Rightarrow> fault + c_int list" where
  "fill_bins mn bw num_bins [] bins = Inr bins"
| "fill_bins mn bw num_bins (v # vs) bins =
     (case bump_bin bins (bin_index mn bw num_bins v) of
        Inl f \<Rightarrow> Inl f
      | Inr bins' \<Rightarrow> fill_bins mn bw num_bins vs bins')"

definition HistogramData_init :: "CHRPOS list \<Rightarrow> c_int \<Rightarrow> fault + HistogramData" where
  "HistogramData_init data num_bins =
     (if sint num_bins < 0 then Inl LengthError
      else
        let h = \<lparr>n_bins = num_bins, min_val = 0, max_val = 0, bin_width = 0,
                 bin_data = replicate (nat (sint num_bins)) 0\<rparr>
        in if data = [] \<or> sint num_bins \<le> 0 then Inr h
           else
             (case min_element data of
                Inl f \<Rightarrow> Inl f
              | Inr mn \<Rightarrow>
                  (case max_element data of
                     Inl f \<Rightarrow> Inl f
                   | Inr mx \<Rightarrow>
                       (let bw = chrpos_div (mx - mn) (scast num_bins);
                            h1 = h\<lparr>min_val := mn, max_val := mx, bin_width := bw\<rparr>
                        in if bw = 0 then Inr h1
                           else
                             (case fill_bins mn bw num_bins data (bin_data h1) of
                                Inl f \<Rightarrow> Inl f
                              | Inr bins \<Rightarrow> Inr (h1\<lparr>bin_data := bins\<rparr>))))))"

section \<open>The scan: the loop of \<open>ProcessBedPE_summary\<close>\<close>

record Totals =
  n_intrachrom :: c_int
  n_interchrom :: c_int
  inversion :: c_int
  insertion :: c_int
  deletion :: c_int
  total_distance :: CHRPOS
  accum :: "CHRPOS list"

definition Totals_init :: Totals where
  "Totals_init = \<lparr>n_intrachrom = 0, n_interchrom = 0, inversion = 0, insertion = 0,
                   deletion = 0, total_distance = 0, accum = []\<rparr>"

text \<open>The body of the loop for a record whose status is \<open>BED_VALID\<close>.\<close>

definition process_record :: "Totals \<Rightarrow> BEDPE \<Rightarrow> Totals" where
  "process_record t e =
     (if chrom1 e = chrom2 e then t\<lparr>n_interchrom := n_interchrom t + 1\<rparr>
      else
        (let distance = llabs (start2 e - start1 e);
             t1 = t\<lparr>n_intrachrom := n_intrachrom t + 1,
                    accum := accum t @ [distance],
                    total_distance := total_distance t + distance\<rparr>
         in if strand1 e = strand2 e then t1\<lparr>inversion := inversion t1 + 1\<rparr>
            else if strand1 e = ''+'' \<and> strand2 e = ''-'' then t1\<lparr>deletion := deletion t1 + 1\<rparr>
            else if strand1 e = ''-'' \<and> strand2 e = ''+'' then t1\<lparr>insertion := insertion t1 + 1\<rparr>
            else t1))"

text \<open>
  The \<open>do ... while\<close> loop: every outcome of the reader up to the first \<open>BED_INVALID\<close>
  is looked at, and only valid records change the totals.
\<close>

fun scan_records :: "Totals \<Rightarrow> BedFilePE \<Rightarrow> Totals" where
  "scan_records t [] = t"
| "scan_records t ((status, e) # rest) =
     (if status = BED_INVALID then t
      else scan_records (if status = BED_VALID then process_record t e else t) rest)"

section \<open>The report: the end of \<open>ProcessBedPE_summary\<close>\<close>

text \<open>
  The mean is computed by a conditional expression whose branches are a \<open>CHRPOS\<close>
  quotient and \<open>std::nan("")\<close>, a \<open>double\<close>: the expression is a \<open>double\<close>, and
  its value is converted back to \<open>CHRPOS\<close> to initialise \<open>mean_len\<close>. The only
  doubles that occur are not-a-number and 64-bit integers rounded to the 53 bits of a
  significand (to nearest, ties to even), so a double is modelled by NaN or the integer
  it holds. A conversion to \<open>CHRPOS\<close> of NaN or of a value outside the range of the
  type is undefined.
\<close>

datatype double = NaN | Dbl int

function bit_length :: "int \<Rightarrow> nat" where
  "bit_length a = (if a \<le> 0 then 0 else Suc (bit_length (a div 2)))"
  by pat_completeness auto
termination
  by (relation "measure nat") auto

declare bit_length.simps [simp del]

definition chrpos_to_double :: "CHRPOS \<Rightarrow> double" where
  "chrpos_to_double x =
     (let k = sint x; a = \<bar>k\<bar>; e = bit_length a - 53
      in if e = 0 then Dbl k
         else
           (let q = a div 2 ^ e; r = a mod 2 ^ e; h = 2 ^ (e - 1);
                q' = (if h < r \<or> (r = h \<and> odd q) then q + 1 else q)
            in Dbl (sgn k * (q' * 2 ^ e))))"

definition double_to_chrpos :: "double \<Rightarrow> fault + CHRPOS" where
  "double_to_chrpos d =
     (case d of
        NaN \<Rightarrow> Inl NotRepresentable
      | Dbl v \<Rightarrow> if - (2 ^ 63) \<le> v \<and> v < 2 ^ 63 then Inr (word_of_int v)
                 else Inl NotRepresentable)"

definition mean_len_of :: "Totals \<Rightarrow> fault + CHRPOS" where
  "mean_len_of t =
     double_to_chrpos
       (if n_intrachrom t \<noteq> 0
        then chrpos_to_double (chrpos_div (total_distance t) (scast (n_intrachrom t)))
        else NaN)"

text \<open>The values that the report prints, in the order of the output.\<close>

record Report =
  r_inversion :: c_int
  r_insertion :: c_int
  r_deletion :: c_int
  r_n_interchrom :: c_int
  r_n_intrachrom :: c_int
  r_mean_len :: CHRPOS
  r_median_len :: CHRPOS
  r_min_val :: CHRPOS
  r_bin_width :: CHRPOS
  r_bin_counts :: "c_int list"

definition finish :: "Totals \<Rightarrow> fault + Report" where
  "finish t =
     (case mean_len_of t of
        Inl f \<Rightarrow> Inl f
      | Inr mean_len \<Rightarrow>
          (case calc_median_chrposv (accum t) of
             (Inl f, _) \<Rightarrow> Inl f
           | (Inr median_len, sorted_accum) \<Rightarrow>
               (case HistogramData_init sorted_accum 10 of
                  Inl f \<Rightarrow> Inl f
                | Inr hist \<Rightarrow>
                    Inr \<lparr>r_inversion = inversion t, r_insertion = insertion t,
                         r_deletion = deletion t, r_n_interchrom = n_interchrom t,
                         r_n_intrachrom = n_intrachrom t, r_mean_len = mean_len,
                         r_median_len = median_len, r_min_val = min_val hist,
                         r_bin_width = bin_width hist, r_bin_counts = bin_data hist\<rparr>)))"

text \<open>
  The whole run: nothing is printed (\<open>None\<close>) when the first answer of the reader
  is \<open>BED_INVALID\<close>; otherwise the file is scanned and the report is made.
\<close>

definition ProcessBedPE_summary :: "BedFilePE \<Rightarrow> fault + Report option" where
  "ProcessBedPE_summary bedpe =
     (case bedpe of
        [] \<Rightarrow> Inr None
      | (status, e) # rest \<Rightarrow>
          if status = BED_INVALID then Inr None
          else (case finish (scan_records Totals_init bedpe) of
                  Inl f \<Rightarrow> Inl f
                | Inr r \<Rightarrow> Inr (Some r)))"

section \<open>Vocabulary of the properties\<close>

text \<open>
  The valid records that the loop consumes: those the reader hands out before its first
  \<open>BED_INVALID\<close>, lines that are no records left out.
\<close>

fun consumed :: "BedFilePE \<Rightarrow> BEDPE list" where
  "consumed [] = []"
| "consumed ((status, e) # rest) =
     (if status = BED_INVALID then []
      else if status = BED_VALID then e # consumed rest
      else consumed rest)"

definition valid_consumed :: "BedFilePE \<Rightarrow> nat" where
  "valid_consumed bedpe = length (consumed bedpe)"

text \<open>
  The branch of the loop body that a record takes, and the category that the chain of
  strand tests gives it there.
\<close>

definition crosses :: "BEDPE \<Rightarrow> bool" where
  "crosses e \<longleftrightarrow> chrom1 e \<noteq> chrom2 e"

definition n_cross :: "BedFilePE \<Rightarrow> nat" where
  "n_cross bedpe = length (filter crosses (consumed bedpe))"

definition n_same :: "BedFilePE \<Rightarrow> nat" where
  "n_same bedpe = length (filter (\<lambda>e. \<not> crosses e) (consumed bedpe))"

definition distance_of :: "BEDPE \<Rightarrow> CHRPOS" where
  "distance_of e = llabs (start2 e - start1 e)"

definition is_inversion :: "BEDPE \<Rightarrow> bool" where
  "is_inversion e \<longleftrightarrow> crosses e \<and> strand1 e = strand2 e"

definition is_deletion :: "BEDPE \<Rightarrow> bool" where
  "is_deletion e \<longleftrightarrow>
     crosses e \<and> strand1 e \<noteq> strand2 e \<and> strand1 e = ''+'' \<and> strand2 e = ''-''"

definition is_insertion :: "BEDPE \<Rightarrow> bool" where
  "is_insertion e \<longleftrightarrow>
     crosses e \<and> strand1 e \<noteq> strand2 e \<and> strand1 e = ''-'' \<and> strand2 e = ''+''"

text \<open>
  The median as the specification words it, on mathematical integers: sort ascending;
  the middle element of an odd number of values; of an even number, the mean of the two
  middle elements, truncated.
\<close>

definition exact_median :: "int list \<Rightarrow> int" where
  "exact_median xs =
     (let s = sort xs; n = length s
      in if odd n then s ! (n div 2)
         else (s ! (n div 2 - 1) + s ! (n div 2)) sdiv 2)"

text \<open>
  The sum of the two middle elements of the sorted values, which the median of an even
  number of values halves.
\<close>

definition middle_sum :: "int list \<Rightarrow> int" where
  "middle_sum xs = (let s = sort xs; n = length s in s ! (n div 2 - 1) + s ! (n div 2))"

text \<open>A line of a file, written short: chromosome, start and strand of either end.\<close>

abbreviation bedpe_line ::
  "string \<Rightarrow> CHRPOS \<Rightarrow> string \<Rightarrow> string \<Rightarrow> CHRPOS \<Rightarrow> string \<Rightarrow> BEDPE" where
  "bedpe_line c1 s1 d1 c2 s2 d2 \<equiv>
     \<lparr>chrom1 = c1, start1 = s1, end1 = s1 + 1, chrom2 = c2, start2 = s2, end2 = s2 + 1,
      strand1 = d1, strand2 = d2\<rparr>"

section \<open>The scan as a fold\<close>

lemma scan_records_fold:
  "scan_records t bedpe = fold (\<lambda>e t. process_record t e) (consumed bedpe) t"
  by (induction t bedpe rule: scan_records.induct) auto

lemma process_record_fields:
  "process_record t e =
     \<lparr>n_intrachrom = n_intrachrom t + of_bool (crosses e),
      n_interchrom = n_interchrom t + of_bool (\<not> crosses e),
      inversion = inversion t + of_bool (is_inversion e),
      insertion = insertion t + of_bool (is_insertion e),
      deletion = deletion t + of_bool (is_deletion e),
      total_distance = total_distance t + (if crosses e then distance_of e else 0),
      accum = accum t @ (if crosses e then [distance_of e] else [])\<rparr>"
  by (simp add: process_record_def crosses_def is_inversion_def is_insertion_def
      is_deletion_def distance_of_def Let_def)

lemma fold_process_record:
  "fold (\<lambda>e t. process_record t e) rs t =
     \<lparr>n_intrachrom = n_intrachrom t + of_nat (length (filter crosses rs)),
      n_interchrom = n_interchrom t + of_nat (length (filter (\<lambda>e. \<not> crosses e) rs)),
      inversion = inversion t + of_nat (length (filter is_inversion rs)),
      insertion = insertion t + of_nat (length (filter is_insertion rs)),
      deletion = deletion t + of_nat (length (filter is_deletion rs)),
      total_distance = total_distance t + sum_list (map distance_of (filter crosses rs)),
      accum = accum t @ map distance_of (filter crosses rs)\<rparr>"
proof (induction rs arbitrary: t)
  case Nil
  show ?case by simp
next
  case (Cons e rs)
  have "fold (\<lambda>e t. process_record t e) (e # rs) t =
        fold (\<lambda>e t. process_record t e) rs (process_record t e)"
    by simp
  also note Cons.IH [of "process_record t e"]
  finally show ?case
    by (simp add: process_record_fields add.assoc)
qed

lemma consumed_take: "\<exists>ys. consumed bedpe = consumed (take k bedpe) @ ys"
proof (induction bedpe arbitrary: k)
  case Nil
  show ?case by simp
next
  case (Cons l bedpe)
  show ?case
  proof (cases k)
    case 0
    then show ?thesis by simp
  next
    case (Suc j)
    from Cons.IH [of j] obtain ys where "consumed bedpe = consumed (take j bedpe) @ ys" ..
    with Suc show ?thesis
      by (cases l) simp
  qed
qed

lemma count_consumed_take:
  "length (filter P (consumed (take k bedpe))) \<le> length (filter P (consumed bedpe))"
proof -
  from consumed_take [of bedpe k] obtain ys
    where "consumed bedpe = consumed (take k bedpe) @ ys" ..
  then have "length (filter P (consumed bedpe))
             = length (filter P (consumed (take k bedpe))) + length (filter P ys)"
    by simp
  then show ?thesis by simp
qed

lemma consumed_replicate_valid: "consumed (replicate n (BED_VALID, e)) = replicate n e"
  by (induction n) simp_all

section \<open>Counters within the range of \<open>int\<close>\<close>

lemma sint_of_nat_c_int:
  "n < 2 ^ 31 \<Longrightarrow> sint (of_nat n :: c_int) = int n"
  by (simp add: signed_of_nat signed_take_bit_int_eq_self)

lemma category_counts_le:
  "length (filter is_inversion rs) + length (filter is_insertion rs)
     + length (filter is_deletion rs) \<le> length (filter crosses rs)"
  by (induction rs) (auto simp: is_inversion_def is_insertion_def is_deletion_def)

lemma scan_records_counts:
  assumes "n_cross bedpe < 2 ^ 31" and "n_same bedpe < 2 ^ 31"
  shows "sint (n_interchrom (scan_records Totals_init bedpe))
           + sint (n_intrachrom (scan_records Totals_init bedpe)) = int (length (consumed bedpe))"
    and "sint (inversion (scan_records Totals_init bedpe))
           + sint (insertion (scan_records Totals_init bedpe))
           + sint (deletion (scan_records Totals_init bedpe))
         \<le> sint (n_intrachrom (scan_records Totals_init bedpe))"
    and "int (length (accum (scan_records Totals_init bedpe)))
         = sint (n_intrachrom (scan_records Totals_init bedpe))"
proof -
  let ?rs = "consumed bedpe"
  have split: "length (filter (\<lambda>e. \<not> crosses e) ?rs) + length (filter crosses ?rs) = length ?rs"
    using sum_length_filter_compl [of crosses ?rs] by simp
  have cat: "length (filter is_inversion ?rs) + length (filter is_insertion ?rs)
     + length (filter is_deletion ?rs) \<le> length (filter crosses ?rs)"
    by (rule category_counts_le)
  have c: "length (filter crosses ?rs) < 2 ^ 31"
    and n: "length (filter (\<lambda>e. \<not> crosses e) ?rs) < 2 ^ 31"
    using assms by (simp_all only: n_cross_def n_same_def)
  from c cat have "length (filter is_inversion ?rs) < 2 ^ 31"
    and "length (filter is_insertion ?rs) < 2 ^ 31"
    and "length (filter is_deletion ?rs) < 2 ^ 31"
    by linarith+
  note s = this [THEN sint_of_nat_c_int] c [THEN sint_of_nat_c_int] n [THEN sint_of_nat_c_int]
  show "sint (n_interchrom (scan_records Totals_init bedpe))
           + sint (n_intrachrom (scan_records Totals_init bedpe)) = int (length (consumed bedpe))"
    using split by (simp add: scan_records_fold fold_process_record Totals_init_def s)
  show "sint (inversion (scan_records Totals_init bedpe))
           + sint (insertion (scan_records Totals_init bedpe))
           + sint (deletion (scan_records Totals_init bedpe))
         \<le> sint (n_intrachrom (scan_records Totals_init bedpe))"
    using cat by (simp add: scan_records_fold fold_process_record Totals_init_def s)
  show "int (length (accum (scan_records Totals_init bedpe)))
         = sint (n_intrachrom (scan_records Totals_init bedpe))"
    by (simp add: scan_records_fold fold_process_record Totals_init_def s)
qed

section \<open>The branch on the chromosomes\<close>

text \<open>
  C1. The claim: a valid record with \<open>chrom1 = chrom2\<close> has its distance
  \<open>|start2 - start1|\<close> appended to the buffer and added to the total and its strands
  classified, and a record with different chromosomes only increments the other counter.
  The code does the opposite: the record on one chromosome increments \<open>n_interchrom\<close>
  and nothing else, and the record on two chromosomes takes the branch commented
  \<open>Intrachromosomal\<close>, where the distance is taken and the strands are classified.
\<close>

theorem C1_branches_are_swapped:
  "process_record Totals_init (bedpe_line ''chr1'' 100 ''+'' ''chr1'' 500 ''+'')
     = Totals_init\<lparr>n_interchrom := 1\<rparr>
   \<and> process_record Totals_init (bedpe_line ''chr1'' 100 ''+'' ''chr2'' 500 ''+'')
     = Totals_init\<lparr>n_intrachrom := 1, inversion := 1, total_distance := 400, accum := [400]\<rparr>"
  by (simp add: process_record_def Totals_init_def llabs_def)

section \<open>The strand pairs\<close>

text \<open>
  C7. A record that reaches the strand tests (its chromosomes differ) increments at most
  one of the three category counters, chosen in this order: equal strands, inversion;
  else \<open>+\<close> then \<open>-\<close>, deletion; else \<open>-\<close> then \<open>+\<close>, insertion; else none.
\<close>

theorem C7_strand_priority:
  assumes "chrom1 e \<noteq> chrom2 e"
  shows "(inversion (process_record t e), deletion (process_record t e),
          insertion (process_record t e)) =
         (if strand1 e = strand2 e then (inversion t + 1, deletion t, insertion t)
          else if strand1 e = ''+'' \<and> strand2 e = ''-''
            then (inversion t, deletion t + 1, insertion t)
          else if strand1 e = ''-'' \<and> strand2 e = ''+''
            then (inversion t, deletion t, insertion t + 1)
          else (inversion t, deletion t, insertion t))"
  using assms by (simp add: process_record_def Let_def)

theorem C7_strand_priority_witness:
  "(inversion (process_record Totals_init (bedpe_line ''chr1'' 100 ''+'' ''chr2'' 500 ''+'')),
    deletion (process_record Totals_init (bedpe_line ''chr1'' 100 ''+'' ''chr2'' 500 ''+'')),
    insertion (process_record Totals_init (bedpe_line ''chr1'' 100 ''+'' ''chr2'' 500 ''+'')))
     = (1, 0, 0)
   \<and> (inversion (process_record Totals_init (bedpe_line ''chr1'' 100 ''+'' ''chr2'' 500 ''-'')),
    deletion (process_record Totals_init (bedpe_line ''chr1'' 100 ''+'' ''chr2'' 500 ''-'')),
    insertion (process_record Totals_init (bedpe_line ''chr1'' 100 ''+'' ''chr2'' 500 ''-'')))
     = (0, 1, 0)
   \<and> (inversion (process_record Totals_init (bedpe_line ''chr1'' 100 ''-'' ''chr2'' 500 ''+'')),
    deletion (process_record Totals_init (bedpe_line ''chr1'' 100 ''-'' ''chr2'' 500 ''+'')),
    insertion (process_record Totals_init (bedpe_line ''chr1'' 100 ''-'' ''chr2'' 500 ''+'')))
     = (0, 0, 1)
   \<and> (inversion (process_record Totals_init (bedpe_line ''chr1'' 100 ''+'' ''chr2'' 500 ''.'')),
    deletion (process_record Totals_init (bedpe_line ''chr1'' 100 ''+'' ''chr2'' 500 ''.'')),
    insertion (process_record Totals_init (bedpe_line ''chr1'' 100 ''+'' ''chr2'' 500 ''.'')))
     = (0, 0, 0)"
proof -
  have h: "chrom1 (bedpe_line ''chr1'' 100 d1 ''chr2'' 500 d2)
           \<noteq> chrom2 (bedpe_line ''chr1'' 100 d1 ''chr2'' 500 d2)" for d1 d2
    by simp
  show ?thesis
    using C7_strand_priority [OF h [of "''+''" "''+''"], of Totals_init]
      C7_strand_priority [OF h [of "''+''" "''-''"], of Totals_init]
      C7_strand_priority [OF h [of "''-''" "''+''"], of Totals_init]
      C7_strand_priority [OF h [of "''+''" "''.''"], of Totals_init]
    by (simp add: Totals_init_def)
qed

text \<open>
  C10. A record that reaches the strand tests with two equal strands that are neither
  \<open>+\<close> nor \<open>-\<close> (both \<open>.\<close>, say) increments the inversion counter and no other.
\<close>

theorem C10_equal_unknown_strands:
  assumes "chrom1 e \<noteq> chrom2 e" and "strand1 e = strand2 e"
    and "strand1 e \<noteq> ''+''" and "strand1 e \<noteq> ''-''"
  shows "inversion (process_record t e) = inversion t + 1
         \<and> deletion (process_record t e) = deletion t
         \<and> insertion (process_record t e) = insertion t"
  using assms by (simp add: process_record_def Let_def)

theorem C10_equal_unknown_strands_witness:
  "inversion (process_record Totals_init (bedpe_line ''chr1'' 100 ''.'' ''chr2'' 500 ''.'')) = 1
   \<and> deletion (process_record Totals_init (bedpe_line ''chr1'' 100 ''.'' ''chr2'' 500 ''.'')) = 0
   \<and> insertion (process_record Totals_init (bedpe_line ''chr1'' 100 ''.'' ''chr2'' 500 ''.'')) = 0"
  using C10_equal_unknown_strands
    [of "bedpe_line ''chr1'' 100 ''.'' ''chr2'' 500 ''.''" Totals_init]
  by (simp add: Totals_init_def)

section \<open>The median of no values\<close>

text \<open>
  C2. The claim: the median of the empty buffer is guarded and reported as a sentinel,
  with no index into the empty vector. The code has no such guard: for \<open>n = 0\<close> it
  reads \<open>accum[n / 2 - 1]\<close>, an index outside the vector.
\<close>

theorem C2_median_of_empty_buffer:
  "calc_median_chrposv [] = (Inl IndexOutOfRange, [])"
  by (simp add: calc_median_chrposv_def vec_at_def)

section \<open>The bins of the histogram\<close>

text \<open>
  C3. The claim: with a bin width above zero every bin index lies between 0 and
  \<open>bin_count - 1\<close>. The code moves an index into the last bin only when it equals
  \<open>num_bins\<close>: for the values 0 and 19 the width is 1, the index of 19 is 19, and the
  increment of \<open>bin_data[19]\<close> is outside the ten bins.
\<close>

theorem C3_bin_index_beyond_last_bin:
  "chrpos_div (19 - 0) (scast (10 :: c_int)) = 1
   \<and> bin_index 0 1 10 19 = 19
   \<and> HistogramData_init [0, 19] 10 = Inl IndexOutOfRange"
  by (simp add: HistogramData_init_def chrpos_div_def bin_index_def bump_bin_def
      signed_divide_int_def)

text \<open>
  C8. The claim: the bin counts sum to the number of values, or to 0 when there are no
  values or the bin width is 0. For the values 3, 40 and 58 the width is 5 and the index
  of 58 is 11: the constructor writes outside the bins and there is no histogram whose
  counts could sum to 3.
\<close>

theorem C8_no_histogram_to_sum:
  "HistogramData_init [3, 40, 58] 10 = Inl IndexOutOfRange"
  by (simp add: HistogramData_init_def chrpos_div_def bin_index_def bump_bin_def
      signed_divide_int_def)

section \<open>The mean of no values\<close>

text \<open>
  C6. The claim: with \<open>n_intrachrom = 0\<close> the mean is reported as not-a-number. The
  code selects \<open>std::nan("")\<close> there, but stores the result in the integer variable
  \<open>mean_len\<close>: not-a-number has no integer value, the conversion is undefined, and
  what is printed is an integer. A file that holds only a header line is enough.
\<close>

theorem C6_mean_of_no_records:
  "n_intrachrom (scan_records Totals_init
      [(BED_HEADER, bedpe_line ''#chrom1'' 0 ''.'' ''chrom2'' 0 ''.'')]) = 0
   \<and> mean_len_of (scan_records Totals_init
      [(BED_HEADER, bedpe_line ''#chrom1'' 0 ''.'' ''chrom2'' 0 ''.'')]) = Inl NotRepresentable
   \<and> ProcessBedPE_summary
      [(BED_HEADER, bedpe_line ''#chrom1'' 0 ''.'' ''chrom2'' 0 ''.'')] = Inl NotRepresentable"
  by (simp add: ProcessBedPE_summary_def finish_def mean_len_of_def double_to_chrpos_def
      Totals_init_def)

section \<open>The invariant of the totals\<close>

text \<open>
  C4, as amended. While no counter leaves the range of \<open>int\<close>, that is, while fewer
  than \<open>2 ^ 31\<close> of the valid records consumed take either branch, after every step
  of the loop (after the first \<open>k\<close> answers of the reader, for every \<open>k\<close>) the two
  chromosome counters add up to the number of valid records consumed so far, the three
  category counters add up to at most \<open>n_intrachrom\<close>, and the buffer of distances
  holds \<open>n_intrachrom\<close> values.
\<close>

theorem C4_totals_invariant:
  assumes "n_cross bedpe < 2 ^ 31" and "n_same bedpe < 2 ^ 31"
  shows "sint (n_interchrom (scan_records Totals_init (take k bedpe)))
           + sint (n_intrachrom (scan_records Totals_init (take k bedpe)))
         = int (valid_consumed (take k bedpe))
         \<and> sint (inversion (scan_records Totals_init (take k bedpe)))
           + sint (insertion (scan_records Totals_init (take k bedpe)))
           + sint (deletion (scan_records Totals_init (take k bedpe)))
         \<le> sint (n_intrachrom (scan_records Totals_init (take k bedpe)))
         \<and> int (length (accum (scan_records Totals_init (take k bedpe))))
         = sint (n_intrachrom (scan_records Totals_init (take k bedpe)))"
proof -
  have "n_cross (take k bedpe) \<le> n_cross bedpe" and "n_same (take k bedpe) \<le> n_same bedpe"
    unfolding n_cross_def n_same_def by (rule count_consumed_take)+
  with assms have "n_cross (take k bedpe) < 2 ^ 31" and "n_same (take k bedpe) < 2 ^ 31"
    by linarith+
  from scan_records_counts [OF this] show ?thesis
    by (simp only: valid_consumed_def simp_thms)
qed

theorem C4_totals_invariant_witness:
  "n_cross
     [(BED_VALID, bedpe_line ''chr1'' 100 ''+'' ''chr2'' 500 ''-''),
      (BED_HEADER, bedpe_line ''#'' 0 ''.'' ''#'' 0 ''.''),
      (BED_VALID, bedpe_line ''chr1'' 100 ''+'' ''chr1'' 500 ''+''),
      (BED_VALID, bedpe_line ''chr3'' 900 ''-'' ''chr2'' 500 ''+'')] < 2 ^ 31
   \<and> n_same
     [(BED_VALID, bedpe_line ''chr1'' 100 ''+'' ''chr2'' 500 ''-''),
      (BED_HEADER, bedpe_line ''#'' 0 ''.'' ''#'' 0 ''.''),
      (BED_VALID, bedpe_line ''chr1'' 100 ''+'' ''chr1'' 500 ''+''),
      (BED_VALID, bedpe_line ''chr3'' 900 ''-'' ''chr2'' 500 ''+'')] < 2 ^ 31
   \<and> sint (n_interchrom (scan_records Totals_init (take 3
     [(BED_VALID, bedpe_line ''chr1'' 100 ''+'' ''chr2'' 500 ''-''),
      (BED_HEADER, bedpe_line ''#'' 0 ''.'' ''#'' 0 ''.''),
      (BED_VALID, bedpe_line ''chr1'' 100 ''+'' ''chr1'' 500 ''+''),
      (BED_VALID, bedpe_line ''chr3'' 900 ''-'' ''chr2'' 500 ''+'')])))
     + sint (n_intrachrom (scan_records Totals_init (take 3
     [(BED_VALID, bedpe_line ''chr1'' 100 ''+'' ''chr2'' 500 ''-''),
      (BED_HEADER, bedpe_line ''#'' 0 ''.'' ''#'' 0 ''.''),
      (BED_VALID, bedpe_line ''chr1'' 100 ''+'' ''chr1'' 500 ''+''),
      (BED_VALID, bedpe_line ''chr3'' 900 ''-'' ''chr2'' 500 ''+'')]))) = 2
   \<and> int (length (accum (scan_records Totals_init (take 3
     [(BED_VALID, bedpe_line ''chr1'' 100 ''+'' ''chr2'' 500 ''-''),
      (BED_HEADER, bedpe_line ''#'' 0 ''.'' ''#'' 0 ''.''),
      (BED_VALID, bedpe_line ''chr1'' 100 ''+'' ''chr1'' 500 ''+''),
      (BED_VALID, bedpe_line ''chr3'' 900 ''-'' ''chr2'' 500 ''+'')]))))
     = sint (n_intrachrom (scan_records Totals_init (take 3
     [(BED_VALID, bedpe_line ''chr1'' 100 ''+'' ''chr2'' 500 ''-''),
      (BED_HEADER, bedpe_line ''#'' 0 ''.'' ''#'' 0 ''.''),
      (BED_VALID, bedpe_line ''chr1'' 100 ''+'' ''chr1'' 500 ''+''),
      (BED_VALID, bedpe_line ''chr3'' 900 ''-'' ''chr2'' 500 ''+'')])))"
proof -
  let ?f = "[(BED_VALID, bedpe_line ''chr1'' 100 ''+'' ''chr2'' 500 ''-''),
      (BED_HEADER, bedpe_line ''#'' 0 ''.'' ''#'' 0 ''.''),
      (BED_VALID, bedpe_line ''chr1'' 100 ''+'' ''chr1'' 500 ''+''),
      (BED_VALID, bedpe_line ''chr3'' 900 ''-'' ''chr2'' 500 ''+'')]"
  have h1: "n_cross ?f < 2 ^ 31"
    by (simp add: n_cross_def crosses_def)
  have h2: "n_same ?f < 2 ^ 31"
    by (simp add: n_same_def crosses_def)
  have v: "valid_consumed (take 3 ?f) = 2"
    by (simp add: valid_consumed_def)
  from C4_totals_invariant [OF h1 h2, of 3] h1 h2 show ?thesis
    unfolding v by simp
qed

text \<open>
  C4 as stated, for any sequence of records, does not hold: the counters are \<open>int\<close>,
  and after \<open>2 ^ 31\<close> records that take the distance branch the buffer holds
  \<open>2 ^ 31\<close> distances, more than \<open>n_intrachrom\<close> can count.
\<close>

theorem C4_int_counter_counterexample:
  "int (length (accum (scan_records Totals_init
      (replicate (2 ^ 31) (BED_VALID, bedpe_line ''chr1'' 100 ''+'' ''chr2'' 500 ''-'')))))
   \<noteq> sint (n_intrachrom (scan_records Totals_init
      (replicate (2 ^ 31) (BED_VALID, bedpe_line ''chr1'' 100 ''+'' ''chr2'' 500 ''-''))))"
proof -
  let ?e = "bedpe_line ''chr1'' 100 ''+'' ''chr2'' 500 ''-''"
  have c: "crosses ?e" by (simp add: crosses_def)
  have len: "length (accum (scan_records Totals_init (replicate n (BED_VALID, ?e)))) = n" for n
    unfolding scan_records_fold consumed_replicate_valid fold_process_record
    using c by (simp add: Totals_init_def)
  have "sint (w :: c_int) < 2 ^ 31" for w
    using sint_lt [of w] by simp
  then show ?thesis
    unfolding len by (simp add: less_le)
qed

section \<open>The median of some values\<close>

lemma sort_map_key: "sort (map f xs) = map f (sort_key f xs)"
  by (rule properties_for_sort) simp_all

lemma sdiv_2_range:
  fixes k :: int
  assumes "- (2 ^ 63) \<le> k" and "k < 2 ^ 63"
  shows "- (2 ^ 63) \<le> k sdiv 2" and "k sdiv 2 < 2 ^ 63"
  using assms by (auto simp: signed_divide_int_def sgn_if)

lemma sint_chrpos_half_sum:
  assumes "- (2 ^ 63) \<le> sint a + sint b" and "sint a + sint b < 2 ^ 63"
  shows "sint (chrpos_div (a + b) 2) = (sint a + sint b) sdiv 2"
proof -
  have ab: "sint (a + b) = sint a + sint b"
    using assms by (simp add: sint_word_ariths signed_take_bit_int_eq_self)
  have "sint (chrpos_div (a + b) 2) = signed_take_bit 63 ((sint a + sint b) sdiv 2)"
    by (simp add: chrpos_div_def ab sint_sbintrunc')
  also have "\<dots> = (sint a + sint b) sdiv 2"
    using sdiv_2_range [OF assms] by (rule signed_take_bit_int_eq_self)
  finally show ?thesis .
qed

lemma vec_at_nat: "i < length v \<Longrightarrow> vec_at v (int i) = Inr (v ! i)"
  by (simp add: vec_at_def)

lemma calc_median_odd:
  assumes "odd (length data)"
  shows "fst (calc_median_chrposv data) = Inr (sort_key sint data ! (length data div 2))"
proof -
  let ?n = "length data"
  have m: "int ?n mod 2 \<noteq> 0"
    using assms by presburger
  have d: "int ?n div 2 = int (?n div 2)" by simp
  have "?n div 2 < length (sort_key sint data)"
    using assms by (cases ?n) auto
  then have "vec_at (sort_key sint data) (int (?n div 2)) = Inr (sort_key sint data ! (?n div 2))"
    by (rule vec_at_nat)
  then show ?thesis
    using m by (simp add: calc_median_chrposv_def Let_def d)
qed

lemma calc_median_even:
  assumes "even (length data)" and "data \<noteq> []"
  shows "fst (calc_median_chrposv data) =
           Inr (chrpos_div (sort_key sint data ! (length data div 2 - 1)
                            + sort_key sint data ! (length data div 2)) 2)"
proof -
  let ?n = "length data"
  let ?s = "sort_key sint data"
  from assms(1) obtain k where k: "?n = 2 * k" by (elim evenE)
  from assms(2) have "0 < ?n" by simp
  with k have pos: "0 < ?n div 2" by simp
  have e3: "int (length ?s) mod 2 = 0"
    by (simp add: k)
  have e2: "int (length ?s) div 2 = int (?n div 2)"
    by (simp add: k)
  have e1: "(if int (?n div 2) = 0 then 2 ^ 64 - 1 else int (?n div 2) - 1) = int (?n div 2 - 1)"
    using pos by (simp add: k)
  have "?n div 2 - 1 < length ?s" and "?n div 2 < length ?s"
    using pos by simp_all
  then have v1: "vec_at ?s (int (?n div 2 - 1)) = Inr (?s ! (?n div 2 - 1))"
    and v2: "vec_at ?s (int (?n div 2)) = Inr (?s ! (?n div 2))"
    by (simp_all only: vec_at_nat)
  show ?thesis
    by (simp only: calc_median_chrposv_def Let_def e3 e2 e1 v1 v2 fst_conv sum.case
        if_False simp_thms)
qed

text \<open>
  C5, as amended. For every buffer of distances that is not empty the function returns
  a median, and it is the exact median: the middle element of an odd number of values;
  of an even number, the truncated mean of the two middle elements, provided their sum
  fits the signed 64 bits of \<open>CHRPOS\<close>.
\<close>

theorem C5_median_exact:
  assumes "data \<noteq> []"
    and "even (length data) \<longrightarrow>
           - (2 ^ 63) \<le> middle_sum (map sint data) \<and> middle_sum (map sint data) < 2 ^ 63"
  shows "\<exists>m. fst (calc_median_chrposv data) = Inr m \<and> sint m = exact_median (map sint data)"
proof -
  let ?s = "sort_key sint data"
  let ?n = "length data"
  have srt: "sort (map sint data) = map sint ?s" by (rule sort_map_key)
  show ?thesis
  proof (cases "even ?n")
    case False
    then have "?n div 2 < ?n" by (cases ?n) auto
    then have "exact_median (map sint data) = sint (?s ! (?n div 2))"
      using False by (simp add: exact_median_def srt Let_def)
    with calc_median_odd [of data] False show ?thesis by simp
  next
    case True
    then obtain k where k: "?n = 2 * k" by (elim evenE)
    from assms(1) have "0 < ?n" by simp
    with k have h: "0 < ?n div 2" "?n div 2 < ?n" by simp_all
    let ?a = "?s ! (?n div 2 - 1)"
    let ?b = "?s ! (?n div 2)"
    have ms: "middle_sum (map sint data) = sint ?a + sint ?b"
      using h by (simp add: middle_sum_def srt Let_def)
    have "sint (chrpos_div (?a + ?b) 2) = (sint ?a + sint ?b) sdiv 2"
      using assms(2) True ms by (intro sint_chrpos_half_sum) simp_all
    moreover have "exact_median (map sint data) = (sint ?a + sint ?b) sdiv 2"
      using True h by (simp add: exact_median_def srt Let_def)
    ultimately show ?thesis
      using calc_median_even [OF True assms(1)] by simp
  qed
qed

theorem C5_median_exact_witness:
  "[5, 3, 9, 4] \<noteq> ([] :: CHRPOS list)
   \<and> - (2 ^ 63) \<le> middle_sum (map sint [5, 3, 9, 4 :: CHRPOS])
   \<and> middle_sum (map sint [5, 3, 9, 4 :: CHRPOS]) < 2 ^ 63
   \<and> (\<exists>m. fst (calc_median_chrposv [5, 3, 9, 4]) = Inr m
          \<and> sint m = exact_median (map sint [5, 3, 9, 4 :: CHRPOS]))"
proof -
  have ms: "middle_sum (map sint [5, 3, 9, 4 :: CHRPOS]) = 9"
    by (simp add: middle_sum_def)
  have h1: "[5, 3, 9, 4] \<noteq> ([] :: CHRPOS list)"
    by simp
  have r: "- (2 ^ 63) \<le> middle_sum (map sint [5, 3, 9, 4 :: CHRPOS])
           \<and> middle_sum (map sint [5, 3, 9, 4 :: CHRPOS]) < 2 ^ 63"
    unfolding ms by simp
  then have h2: "even (length [5, 3, 9, 4 :: CHRPOS]) \<longrightarrow>
              - (2 ^ 63) \<le> middle_sum (map sint [5, 3, 9, 4 :: CHRPOS])
              \<and> middle_sum (map sint [5, 3, 9, 4 :: CHRPOS]) < 2 ^ 63"
    by (rule impI)
  from C5_median_exact [OF h1 h2] h1 r show ?thesis
    by blast
qed

text \<open>
  C5 as stated, for every buffer that is not empty, does not hold: the two middle
  elements are added in \<open>CHRPOS\<close> before the sum is halved. For two distances of
  \<open>2 ^ 62\<close> the sum wraps around and the result is \<open>- (2 ^ 62)\<close>, where the exact
  median is \<open>2 ^ 62\<close>.
\<close>

theorem C5_median_overflow_counterexample:
  "fst (calc_median_chrposv [2 ^ 62, 2 ^ 62]) = Inr (- (2 ^ 62))
   \<and> sint (- (2 ^ 62) :: CHRPOS) = - (2 ^ 62)
   \<and> exact_median (map sint [2 ^ 62, 2 ^ 62 :: CHRPOS]) = 2 ^ 62
   \<and> sint (- (2 ^ 62) :: CHRPOS) \<noteq> exact_median (map sint [2 ^ 62, 2 ^ 62 :: CHRPOS])"
  by (simp add: calc_median_chrposv_def vec_at_def chrpos_div_def exact_median_def
      signed_divide_int_def)

section \<open>The order of the records\<close>

lemma consumed_valid: "consumed (map (Pair BED_VALID) rs) = rs"
  by (induction rs) simp_all

lemma sort_key_sint_mset:
  assumes "mset xs = mset ys"
  shows "sort_key sint xs = sort_key sint ys"
proof (rule sort_key_inj_key_eq)
  show "mset xs = mset (sort_key sint ys)" using assms by simp
  show "inj_on sint (set xs)" by (rule inj_onI) (rule signed_word_eqI)
  show "sorted (map sint (sort_key sint ys))" by simp
qed

lemma finish_cong:
  assumes "n_intrachrom t = n_intrachrom t'" and "n_interchrom t = n_interchrom t'"
    and "inversion t = inversion t'" and "insertion t = insertion t'"
    and "deletion t = deletion t'" and "total_distance t = total_distance t'"
    and "mset (accum t) = mset (accum t')"
  shows "finish t = finish t'"
proof -
  have "sort_key sint (accum t) = sort_key sint (accum t')"
    using assms(7) by (rule sort_key_sint_mset)
  then have "calc_median_chrposv (accum t) = calc_median_chrposv (accum t')"
    by (simp only: calc_median_chrposv_def)
  moreover have "mean_len_of t = mean_len_of t'"
    using assms(1,6) by (simp only: mean_len_of_def)
  ultimately show ?thesis
    using assms(1-5) by (simp only: finish_def)
qed

lemma count_filter_mset:
  assumes "mset rs = mset rs'"
  shows "length (filter P rs) = length (filter P rs')"
proof -
  have "mset (filter P rs) = mset (filter P rs')"
    using assms by simp
  then show ?thesis by (rule mset_eq_length)
qed

lemma sum_distance_mset:
  fixes f :: "'a \<Rightarrow> CHRPOS"
  assumes "mset rs = mset rs'"
  shows "sum_list (map f (filter P rs)) = sum_list (map f (filter P rs'))"
proof -
  have "mset (map f (filter P rs)) = mset (map f (filter P rs'))"
    using assms by simp
  then have "sum_mset (mset (map f (filter P rs))) = sum_mset (mset (map f (filter P rs')))"
    by simp
  then show ?thesis by (simp only: sum_mset_sum_list)
qed

lemma finish_fold_mset:
  assumes "mset rs = mset rs'"
  shows "finish (fold (\<lambda>e t. process_record t e) rs t)
         = finish (fold (\<lambda>e t. process_record t e) rs' t)"
proof (rule finish_cong)
  note c = count_filter_mset [OF assms]
  show "n_intrachrom (fold (\<lambda>e t. process_record t e) rs t)
        = n_intrachrom (fold (\<lambda>e t. process_record t e) rs' t)"
    by (simp add: fold_process_record c [of crosses])
  show "n_interchrom (fold (\<lambda>e t. process_record t e) rs t)
        = n_interchrom (fold (\<lambda>e t. process_record t e) rs' t)"
    by (simp add: fold_process_record c [of "\<lambda>e. \<not> crosses e"])
  show "inversion (fold (\<lambda>e t. process_record t e) rs t)
        = inversion (fold (\<lambda>e t. process_record t e) rs' t)"
    by (simp add: fold_process_record c [of is_inversion])
  show "insertion (fold (\<lambda>e t. process_record t e) rs t)
        = insertion (fold (\<lambda>e t. process_record t e) rs' t)"
    by (simp add: fold_process_record c [of is_insertion])
  show "deletion (fold (\<lambda>e t. process_record t e) rs t)
        = deletion (fold (\<lambda>e t. process_record t e) rs' t)"
    by (simp add: fold_process_record c [of is_deletion])
  show "total_distance (fold (\<lambda>e t. process_record t e) rs t)
        = total_distance (fold (\<lambda>e t. process_record t e) rs' t)"
    by (simp add: fold_process_record sum_distance_mset [OF assms, of distance_of crosses])
  show "mset (accum (fold (\<lambda>e t. process_record t e) rs t))
        = mset (accum (fold (\<lambda>e t. process_record t e) rs' t))"
    using assms by (simp add: fold_process_record)
qed

lemma ProcessBedPE_summary_valid:
  assumes "rs \<noteq> []"
  shows "ProcessBedPE_summary (map (Pair BED_VALID) rs)
         = (case finish (fold (\<lambda>e t. process_record t e) rs Totals_init) of
              Inl f \<Rightarrow> Inl f | Inr r \<Rightarrow> Inr (Some r))"
proof -
  from assms obtain e es where rs: "rs = e # es" by (cases rs) auto
  have "scan_records Totals_init (map (Pair BED_VALID) rs)
        = fold (\<lambda>e t. process_record t e) rs Totals_init"
    by (simp only: scan_records_fold consumed_valid)
  then show ?thesis
    by (simp add: ProcessBedPE_summary_def rs del: scan_records.simps)
qed

lemma bit_length_le: "a < 2 ^ n \<Longrightarrow> bit_length a \<le> n"
proof (induction n arbitrary: a)
  case 0
  then show ?case by (simp add: bit_length.simps)
next
  case (Suc n)
  show ?case
  proof (cases "a \<le> 0")
    case True
    then show ?thesis by (simp add: bit_length.simps)
  next
    case False
    from Suc.prems have "a div 2 < 2 ^ n" by simp
    then have "bit_length (a div 2) \<le> n" by (rule Suc.IH)
    with False show ?thesis by (subst bit_length.simps) simp
  qed
qed

lemma chrpos_to_double_exact:
  assumes "\<bar>sint x\<bar> < 2 ^ 53"
  shows "chrpos_to_double x = Dbl (sint x)"
proof -
  have "bit_length \<bar>sint x\<bar> \<le> 53" using assms by (rule bit_length_le)
  then show ?thesis by (simp add: chrpos_to_double_def Let_def)
qed

text \<open>
  C9. Two files of valid records that are permutations of each other give the same run:
  the same report (counters, mean, median, the minimum, the bin width and the bin counts
  of the histogram), or the same fault.
\<close>

theorem C9_order_independent:
  assumes "mset rs = mset rs'"
  shows "ProcessBedPE_summary (map (Pair BED_VALID) rs)
         = ProcessBedPE_summary (map (Pair BED_VALID) rs')"
proof (cases "rs = []")
  case True
  with assms have "rs' = []" by simp
  with True show ?thesis by simp
next
  case False
  with assms have "rs' \<noteq> []" by auto
  then have "ProcessBedPE_summary (map (Pair BED_VALID) rs')
             = (case finish (fold (\<lambda>e t. process_record t e) rs' Totals_init) of
                  Inl f \<Rightarrow> Inl f | Inr r \<Rightarrow> Inr (Some r))"
    by (rule ProcessBedPE_summary_valid)
  also have "finish (fold (\<lambda>e t. process_record t e) rs' Totals_init)
             = finish (fold (\<lambda>e t. process_record t e) rs Totals_init)"
    using assms by (rule finish_fold_mset [symmetric])
  also have "(case finish (fold (\<lambda>e t. process_record t e) rs Totals_init) of
                Inl f \<Rightarrow> Inl f | Inr r \<Rightarrow> Inr (Some r))
             = ProcessBedPE_summary (map (Pair BED_VALID) rs)"
    using False by (rule ProcessBedPE_summary_valid [symmetric])
  finally show ?thesis by (rule sym)
qed

theorem C9_order_independent_witness:
  "mset [bedpe_line ''chr1'' 100 ''+'' ''chr2'' 500 ''-'',
         bedpe_line ''chr3'' 900 ''.'' ''chr2'' 200 ''.'']
   = mset [bedpe_line ''chr3'' 900 ''.'' ''chr2'' 200 ''.'',
           bedpe_line ''chr1'' 100 ''+'' ''chr2'' 500 ''-'']
   \<and> ProcessBedPE_summary (map (Pair BED_VALID)
        [bedpe_line ''chr3'' 900 ''.'' ''chr2'' 200 ''.'',
         bedpe_line ''chr1'' 100 ''+'' ''chr2'' 500 ''-''])
     = ProcessBedPE_summary (map (Pair BED_VALID)
        [bedpe_line ''chr1'' 100 ''+'' ''chr2'' 500 ''-'',
         bedpe_line ''chr3'' 900 ''.'' ''chr2'' 200 ''.''])
   \<and> ProcessBedPE_summary (map (Pair BED_VALID)
        [bedpe_line ''chr1'' 100 ''+'' ''chr2'' 500 ''-'',
         bedpe_line ''chr3'' 900 ''.'' ''chr2'' 200 ''.''])
     = Inr (Some \<lparr>r_inversion = 1, r_insertion = 0, r_deletion = 1, r_n_interchrom = 0,
                   r_n_intrachrom = 2, r_mean_len = 550, r_median_len = 550,
                   r_min_val = 400, r_bin_width = 30,
                   r_bin_counts = [1, 0, 0, 0, 0, 0, 0, 0, 0, 1]\<rparr>)"
proof -
  have h: "mset [bedpe_line ''chr1'' 100 ''+'' ''chr2'' 500 ''-'',
                 bedpe_line ''chr3'' 900 ''.'' ''chr2'' 200 ''.'']
           = mset [bedpe_line ''chr3'' 900 ''.'' ''chr2'' 200 ''.'',
                   bedpe_line ''chr1'' 100 ''+'' ''chr2'' 500 ''-'']"
    by (simp add: add.commute)
  have m: "chrpos_to_double 550 = Dbl 550"
    by (simp add: chrpos_to_double_exact)
  have v: "ProcessBedPE_summary (map (Pair BED_VALID)
        [bedpe_line ''chr1'' 100 ''+'' ''chr2'' 500 ''-'',
         bedpe_line ''chr3'' 900 ''.'' ''chr2'' 200 ''.''])
     = Inr (Some \<lparr>r_inversion = 1, r_insertion = 0, r_deletion = 1, r_n_interchrom = 0,
                   r_n_intrachrom = 2, r_mean_len = 550, r_median_len = 550,
                   r_min_val = 400, r_bin_width = 30,
                   r_bin_counts = [1, 0, 0, 0, 0, 0, 0, 0, 0, 1]\<rparr>)"
    by (simp add: ProcessBedPE_summary_def finish_def process_record_def llabs_def
        Totals_init_def mean_len_of_def chrpos_div_def signed_divide_int_def m
        double_to_chrpos_def calc_median_chrposv_def vec_at_def HistogramData_init_def
        bin_index_def bump_bin_def)
      (simp add: eval_nat_numeral)
  from C9_order_independent [OF h] h v show ?thesis
    by (simp only: simp_thms)
qed

end
